theory Spec2Isabelle
  imports Complex_Main
begin

section \<open>Data model of the booking service\<close>

text \<open>
  The service \<^verbatim>\<open>backend/services/bookingService.js\<close> works on three tables through
  the ORM: rooms, bookings and users. Only the first two are read or written by the
  operations studied here.

  A date is a valid JavaScript \<^verbatim>\<open>Date\<close>: its time value, the number of milliseconds
  since the epoch, an integer of magnitude at most \<open>8.64 * 10^15\<close> and so a double as it
  stands. \<^verbatim>\<open>new Date(d)\<close> of such a date is the same instant and comparison of two
  dates compares the time values.
\<close>

type_synonym date = int

text \<open>
  Every \<^verbatim>\<open>throw new Error(...)\<close> of the service is one constructor, in the order of
  the source: room not found, room not available on the dates, check-out not later than
  check-in, booking not found, access denied, no cancellation after the check-in date,
  inadmissible status. \<open>kind\<close> groups them into the four kinds of errors the
  specification names.
\<close>

datatype error =
    RoomNotFound
  | RoomUnavailable
  | InvalidDates
  | BookingNotFound
  | AccessDenied
  | CancelAfterCheckIn
  | InvalidStatus

datatype error_kind = NotFound | Validation | Conflict | Forbidden

fun kind :: "error \<Rightarrow> error_kind" where
  "kind RoomNotFound = NotFound"
| "kind RoomUnavailable = Conflict"
| "kind InvalidDates = Validation"
| "kind BookingNotFound = NotFound"
| "kind AccessDenied = Forbidden"
| "kind CancelAfterCheckIn = Conflict"
| "kind InvalidStatus = Validation"

text \<open>
  A JavaScript number is an IEEE 754 double. A finite double is the rational it
  denotes (the two zeros are one value here, as they are for \<^verbatim>\<open>===\<close>); the
  result of an arithmetic operation may also be one of the two infinities. No operation
  of the service yields NaN from finite operands.
\<close>

datatype number = Finite rat | PosInfinity | NegInfinity

text \<open>
  The nightly price of a room is a finite number, that is a rational which is a
  double.
\<close>

record room =
  room_id :: nat
  price :: rat

text \<open>
  A row of the bookings table. The columns that \<^verbatim>\<open>createBooking\<close> fills from
  keys which the caller's object may or may not carry (\<^verbatim>\<open>UserId\<close>,
  \<^verbatim>\<open>totalPrice\<close>, \<^verbatim>\<open>status\<close>) are nullable: \<open>None\<close> is SQL's NULL.
\<close>

record booking =
  booking_id :: nat
  RoomId :: nat
  UserId :: "nat option"
  checkIn :: date
  checkOut :: date
  totalPrice :: "number option"
  status :: "string option"

text \<open>
  The object \<^verbatim>\<open>bookingData\<close> handed to \<^verbatim>\<open>createBooking\<close>. The service reads
  \<^verbatim>\<open>roomId\<close>, \<^verbatim>\<open>checkIn\<close> and \<^verbatim>\<open>checkOut\<close>; the object may also carry
  the keys \<^verbatim>\<open>UserId\<close>, \<^verbatim>\<open>totalPrice\<close> and \<^verbatim>\<open>status\<close>
  (\<open>None\<close>: the key is absent).
\<close>

record bookingData =
  bd_roomId :: nat
  bd_checkIn :: date
  bd_checkOut :: date
  bd_UserId :: "nat option"
  bd_totalPrice :: "number option"
  bd_status :: "string option"

record store =
  rooms :: "room list"
  bookings :: "booking list"
  nextId :: nat

section \<open>The ORM calls the service makes\<close>

text \<open>
  The models \<^verbatim>\<open>Room\<close> and \<^verbatim>\<open>Booking\<close> of \<^verbatim>\<open>backend/models\<close> are
  declared outside the service file; the service reaches the tables only through the
  calls below. A table is the list of its rows, in the order of insertion.
\<close>

text \<open>
  Modelled from the spec: \<^verbatim>\<open>Room.findByPk\<close>, the room lookup by identifier of the
  room catalog; \<open>None\<close> is JavaScript's \<^verbatim>\<open>null\<close>.
\<close>

definition Room_findByPk :: "nat \<Rightarrow> store \<Rightarrow> room option" where
  "Room_findByPk i s = find (\<lambda>r. room_id r = i) (rooms s)"

text \<open>
  Modelled from the spec: \<^verbatim>\<open>Booking.findByPk\<close>, find-by-id of the persisted
  booking store.
\<close>

definition Booking_findByPk :: "nat \<Rightarrow> store \<Rightarrow> booking option" where
  "Booking_findByPk i s = find (\<lambda>b. booking_id b = i) (bookings s)"

text \<open>
  Modelled from the spec: \<^verbatim>\<open>Booking.findOne({ where })\<close>, some row that satisfies
  the \<^verbatim>\<open>where\<close> clause, or \<^verbatim>\<open>null\<close> when there is none.
\<close>

definition Booking_findOne :: "(booking \<Rightarrow> bool) \<Rightarrow> store \<Rightarrow> booking option" where
  "Booking_findOne wh s = find wh (bookings s)"

text \<open>
  Modelled from the spec: \<^verbatim>\<open>Booking.create\<close>, create of the persisted booking
  store. It appends one row and returns it. The primary key comes from a counter; the
  room reference (the column the availability query reads as \<^verbatim>\<open>RoomId\<close>), the
  dates, the owner, the price and the status are those found in the object it is
  given, and a column is NULL when its key is absent.
\<close>

definition Booking_create :: "bookingData \<Rightarrow> store \<Rightarrow> booking \<times> store" where
  "Booking_create attrs s =
     (let b = \<lparr> booking_id = nextId s,
                 RoomId = bd_roomId attrs,
                 UserId = bd_UserId attrs,
                 checkIn = bd_checkIn attrs,
                 checkOut = bd_checkOut attrs,
                 totalPrice = bd_totalPrice attrs,
                 status = bd_status attrs \<rparr>
      in (b, s\<lparr> bookings := bookings s @ [b], nextId := Suc (nextId s) \<rparr>))"

text \<open>
  Modelled from the spec: \<^verbatim>\<open>booking.update({...})\<close>, update-status of the
  persisted booking store, on the instance that \<^verbatim>\<open>findByPk\<close> returned: the
  first row with that primary key is rewritten, every other row is left as it is.
\<close>

fun instance_update :: "nat \<Rightarrow> (booking \<Rightarrow> booking) \<Rightarrow> booking list \<Rightarrow> booking list" where
  "instance_update i f [] = []"
| "instance_update i f (b # bs) =
     (if booking_id b = i then f b # bs else b # instance_update i f bs)"

text \<open>\<^verbatim>\<open>Op.between\<close> is SQL's BETWEEN: both ends belong to the range.\<close>

definition between :: "date \<Rightarrow> date \<Rightarrow> date \<Rightarrow> bool" where
  "between x lo hi \<longleftrightarrow> lo \<le> x \<and> x \<le> hi"

section \<open>The service\<close>

text \<open>
  Each exported function is one definition, with the checks in the order of the
  source. The \<^verbatim>\<open>catch\<close> blocks log the error and throw it again, so an error
  reaches the caller as it was raised; the log is not part of the store. The rooms
  and users joined to a booking by \<^verbatim>\<open>include\<close> are read-only decoration of the
  value returned and are left out.
\<close>

subsection \<open>Double-precision arithmetic\<close>

text \<open>
  The operators \<^verbatim>\<open>-\<close>, \<^verbatim>\<open>/\<close> and \<^verbatim>\<open>*\<close> of \<^verbatim>\<open>calculateTotalPrice\<close>
  work on doubles: each returns the double nearest to the exact result, a tie going to
  the neighbour with an even significand.

  \<open>rne\<close> rounds a rational to the nearest integer, ties to even.
\<close>

definition rne :: "rat \<Rightarrow> int" where
  "rne z = (let n = \<lfloor>z\<rfloor>; r = z - of_int n
            in if r < 1 / 2 then n else if 1 / 2 < r then n + 1
               else if even n then n else n + 1)"

text \<open>\<open>expo x\<close> is the binary exponent of a positive \<open>x\<close>: \<open>2^e \<le> x < 2^(e+1)\<close>.\<close>

function expo :: "rat \<Rightarrow> int" where
  "expo x = (if x \<le> 0 then 0
             else if 2 \<le> x then expo (x / 2) + 1
             else if x < 1 then expo (2 * x) - 1
             else 0)"
  by pat_completeness auto
termination
proof (relation "measures [\<lambda>x. nat \<lceil>1 / x\<rceil>, \<lambda>x. nat \<lceil>x\<rceil>]")
  show "wf (measures [\<lambda>x. nat \<lceil>1 / x\<rceil>, \<lambda>x::rat. nat \<lceil>x\<rceil>])" by simp
next
  fix x :: rat
  assume a: "\<not> x \<le> 0" "2 \<le> x"
  have "\<lceil>1 / x\<rceil> = 1"
    by (rule ceiling_unique) (use a in \<open>auto simp: field_simps\<close>)
  moreover have "\<lceil>1 / (x / 2)\<rceil> = 1"
    by (rule ceiling_unique) (use a in \<open>auto simp: field_simps\<close>)
  moreover have "\<lceil>x / 2\<rceil> < \<lceil>x\<rceil>"
  proof -
    have "x / 2 \<le> x - 1" using a by simp
    then have "\<lceil>x / 2\<rceil> \<le> \<lceil>x - 1\<rceil>" by (rule ceiling_mono)
    then show ?thesis by simp
  qed
  moreover have "0 < \<lceil>x\<rceil>" using a by (simp add: ceiling_less_iff not_le)
  ultimately show "(x / 2, x) \<in> measures [\<lambda>x. nat \<lceil>1 / x\<rceil>, \<lambda>x. nat \<lceil>x\<rceil>]"
    by simp
next
  fix x :: rat
  assume a: "\<not> x \<le> 0" "\<not> 2 \<le> x" "x < 1"
  have one: "1 < 1 / x" using a by (simp add: field_simps)
  then have two: "2 \<le> \<lceil>1 / x\<rceil>"
    by (simp add: le_ceiling_iff)
  have "1 / (2 * x) = (1 / x) / 2" by simp
  also have "\<dots> \<le> of_int \<lceil>1 / x\<rceil> / 2"
    by (simp add: divide_right_mono)
  also have "\<dots> \<le> of_int (\<lceil>1 / x\<rceil> - 1)"
    using two by simp
  finally have "\<lceil>1 / (2 * x)\<rceil> \<le> \<lceil>1 / x\<rceil> - 1"
    by (rule ceiling_le)
  with two a show "(2 * x, x) \<in> measures [\<lambda>x. nat \<lceil>1 / x\<rceil>, \<lambda>x. nat \<lceil>x\<rceil>]"
    by simp
qed

declare expo.simps [simp del]

text \<open>
  The spacing of the doubles around \<open>x\<close>: a double has 53 significant bits, and
  below \<open>2^-1022\<close> the doubles are the multiples of \<open>2^-1074\<close>.
\<close>

definition quantum :: "rat \<Rightarrow> rat" where
  "quantum x = max (2 powi (expo \<bar>x\<bar> - 52)) (2 powi (- 1074))"

text \<open>
  \<open>round_finite x\<close> is the multiple of the spacing nearest to \<open>x\<close>, ties to even;
  \<open>round64\<close> is the result of an operation whose exact value is \<open>x\<close>: the rounded
  value, or an infinity when the rounded value has magnitude \<open>2^1024\<close> or more.
\<close>

definition round_finite :: "rat \<Rightarrow> rat" where
  "round_finite x = quantum x * of_int (rne (x / quantum x))"

definition round64 :: "rat \<Rightarrow> number" where
  "round64 x =
     (let r = round_finite x
      in if 2 ^ 1024 \<le> r then PosInfinity
         else if r \<le> - (2 ^ 1024) then NegInfinity
         else Finite r)"

subsection \<open>calculateTotalPrice\<close>

text \<open>
  \<^verbatim>\<open>checkOut - checkIn\<close> is the rounded difference of the two time values, the
  division by \<^verbatim>\<open>1000 * 60 * 60 * 24\<close> (exactly 86400000) is rounded,
  \<^verbatim>\<open>Math.ceil\<close> is exact, and the product with the price is rounded. The
  difference and the quotient of two dates are far from the overflow threshold.
\<close>

definition calculateTotalPrice :: "rat \<Rightarrow> date \<Rightarrow> date \<Rightarrow> number" where
  "calculateTotalPrice pricePerNight ci co =
     (let daysCount = \<lceil>round_finite (round_finite (of_int (co - ci)) / (1000 * 60 * 60 * 24))\<rceil>
      in round64 (pricePerNight * of_int daysCount))"

subsection \<open>checkRoomAvailability\<close>

text \<open>The \<^verbatim>\<open>where\<close> clause of the query for a conflicting booking.\<close>

definition conflictWhere :: "nat \<Rightarrow> date \<Rightarrow> date \<Rightarrow> booking \<Rightarrow> bool" where
  "conflictWhere roomId checkInDate checkOutDate b \<longleftrightarrow>
     RoomId b = roomId \<and>
     status b \<in> set [Some ''pending'', Some ''confirmed''] \<and>
     (between (checkIn b) checkInDate checkOutDate \<or>
      between (checkOut b) checkInDate checkOutDate \<or>
      (checkIn b \<le> checkInDate \<and> checkOut b \<ge> checkOutDate))"

definition checkRoomAvailability :: "nat \<Rightarrow> date \<Rightarrow> date \<Rightarrow> store \<Rightarrow> error + bool" where
  "checkRoomAvailability roomId checkInDate checkOutDate s =
     (if checkInDate \<ge> checkOutDate then Inl InvalidDates
      else (let conflictingBookings = Booking_findOne (conflictWhere roomId checkInDate checkOutDate) s
            in Inr (conflictingBookings = None)))"

subsection \<open>createBooking\<close>

text \<open>
  An operation that writes returns its result together with the store it leaves
  behind; a \<^verbatim>\<open>throw\<close> before the write leaves the store as it was. The object
  literal \<^verbatim>\<open>{...bookingData, UserId: userId, totalPrice, status: 'pending'}\<close> copies
  the keys of \<^verbatim>\<open>bookingData\<close> and then sets the three keys that follow the spread.
\<close>

definition createBooking :: "bookingData \<Rightarrow> nat \<Rightarrow> store \<Rightarrow> (error + booking) \<times> store" where
  "createBooking bookingData userId s =
     (case Room_findByPk (bd_roomId bookingData) s of
        None \<Rightarrow> (Inl RoomNotFound, s)
      | Some room \<Rightarrow>
          (case checkRoomAvailability (bd_roomId bookingData) (bd_checkIn bookingData)
                  (bd_checkOut bookingData) s of
             Inl e \<Rightarrow> (Inl e, s)
           | Inr isAvailable \<Rightarrow>
               if \<not> isAvailable then (Inl RoomUnavailable, s)
               else
                 (let total = calculateTotalPrice (price room) (bd_checkIn bookingData)
                                (bd_checkOut bookingData);
                      (b, s') = Booking_create
                                  (bookingData\<lparr> bd_UserId := Some userId,
                                                bd_totalPrice := Some total,
                                                bd_status := Some ''pending'' \<rparr>) s
                  in (Inr b, s'))))"

subsection \<open>getBookingById, cancelBooking, updateBookingStatus\<close>

definition getBookingById :: "nat \<Rightarrow> nat \<Rightarrow> string \<Rightarrow> store \<Rightarrow> error + booking" where
  "getBookingById i userId userRole s =
     (case Booking_findByPk i s of
        None \<Rightarrow> Inl BookingNotFound
      | Some b \<Rightarrow>
          if UserId b \<noteq> Some userId \<and> userRole \<noteq> ''admin'' \<and> userRole \<noteq> ''manager''
          then Inl AccessDenied
          else Inr b)"

text \<open>\<^verbatim>\<open>new Date()\<close>, the wall-clock time of the call, is the argument \<open>now\<close>.\<close>

definition cancelBooking :: "nat \<Rightarrow> nat \<Rightarrow> string \<Rightarrow> date \<Rightarrow> store \<Rightarrow> (error + booking) \<times> store" where
  "cancelBooking i userId userRole now s =
     (case Booking_findByPk i s of
        None \<Rightarrow> (Inl BookingNotFound, s)
      | Some b \<Rightarrow>
          if UserId b \<noteq> Some userId \<and> userRole \<noteq> ''admin'' \<and> userRole \<noteq> ''manager''
          then (Inl AccessDenied, s)
          else if now > checkIn b then (Inl CancelAfterCheckIn, s)
          else (Inr (b\<lparr> status := Some ''canceled'' \<rparr>),
                s\<lparr> bookings :=
                     instance_update i (\<lambda>r. r\<lparr> status := Some ''canceled'' \<rparr>) (bookings s) \<rparr>))"

definition allowedStatuses :: "string list" where
  "allowedStatuses = [''pending'', ''confirmed'', ''canceled'', ''completed'']"

definition updateBookingStatus :: "nat \<Rightarrow> string \<Rightarrow> store \<Rightarrow> (error + booking) \<times> store" where
  "updateBookingStatus i newStatus s =
     (case Booking_findByPk i s of
        None \<Rightarrow> (Inl BookingNotFound, s)
      | Some b \<Rightarrow>
          if newStatus \<notin> set allowedStatuses then (Inl InvalidStatus, s)
          else (Inr (b\<lparr> status := Some newStatus \<rparr>),
                s\<lparr> bookings :=
                     instance_update i (\<lambda>r. r\<lparr> status := Some newStatus \<rparr>) (bookings s) \<rparr>))"

section \<open>The double-booking invariant and sequential executions\<close>

text \<open>
  A booking is active when its status is pending or confirmed. Two bookings overlap
  when their half-open intervals \<open>[checkIn, checkOut)\<close> have an instant in common.
  The invariant of the data model: no two rows of the bookings table are active, on
  the same room and overlapping.
\<close>

definition active :: "booking \<Rightarrow> bool" where
  "active b \<longleftrightarrow> status b = Some ''pending'' \<or> status b = Some ''confirmed''"

definition overlaps :: "booking \<Rightarrow> booking \<Rightarrow> bool" where
  "overlaps a b \<longleftrightarrow> max (checkIn a) (checkIn b) < min (checkOut a) (checkOut b)"

definition double_booked :: "booking \<Rightarrow> booking \<Rightarrow> bool" where
  "double_booked a b \<longleftrightarrow> RoomId a = RoomId b \<and> active a \<and> active b \<and> overlaps a b"

fun no_double_booking :: "booking list \<Rightarrow> bool" where
  "no_double_booking [] = True"
| "no_double_booking (b # bs) = ((\<forall>x \<in> set bs. \<not> double_booked b x) \<and> no_double_booking bs)"

text \<open>
  A sequential execution is a list of calls of the three writing operations, each run
  on the store the previous one left.
\<close>

datatype operation =
    CreateBooking bookingData nat
  | CancelBooking nat nat string date
  | UpdateBookingStatus nat string

fun exec :: "operation \<Rightarrow> store \<Rightarrow> store" where
  "exec (CreateBooking bd userId) s = snd (createBooking bd userId s)"
| "exec (CancelBooking i userId userRole now) s = snd (cancelBooking i userId userRole now s)"
| "exec (UpdateBookingStatus i newStatus) s = snd (updateBookingStatus i newStatus s)"

fun run :: "operation list \<Rightarrow> store \<Rightarrow> store" where
  "run [] s = s"
| "run (opn # ops) s = run ops (exec opn s)"

text \<open>
  A call reactivates a booking when it is a status update to pending or confirmed of a
  booking that is found and is not active at that moment.
\<close>

fun reactivates :: "operation \<Rightarrow> store \<Rightarrow> bool" where
  "reactivates (UpdateBookingStatus i newStatus) s =
     ((newStatus = ''pending'' \<or> newStatus = ''confirmed'') \<and>
      (case Booking_findByPk i s of None \<Rightarrow> False | Some b \<Rightarrow> \<not> active b))"
| "reactivates _ s = False"

fun no_reactivation :: "operation list \<Rightarrow> store \<Rightarrow> bool" where
  "no_reactivation [] s = True"
| "no_reactivation (opn # ops) s = (\<not> reactivates opn s \<and> no_reactivation ops (exec opn s))"

section \<open>Example stores\<close>

text \<open>
  Two rooms; room 1 has a confirmed booking of user 7 for days 0 to 3, room 2 a
  canceled booking of user 8 for days 0 to 10. One day is 86400000 ms.
\<close>

definition demo_store :: store where
  "demo_store =
     \<lparr> rooms = [\<lparr> room_id = 1, price = 100 \<rparr>, \<lparr> room_id = 2, price = 75 / 2 \<rparr>],
       bookings =
         [\<lparr> booking_id = 1, RoomId = 1, UserId = Some 7, checkIn = 0, checkOut = 259200000,
            totalPrice = Some (Finite 300), status = Some ''confirmed'' \<rparr>,
          \<lparr> booking_id = 2, RoomId = 2, UserId = Some 8, checkIn = 0, checkOut = 864000000,
            totalPrice = Some (Finite 375), status = Some ''canceled'' \<rparr>],
       nextId = 3 \<rparr>"

definition demo_booking1 :: booking where
  "demo_booking1 =
     \<lparr> booking_id = 1, RoomId = 1, UserId = Some 7, checkIn = 0, checkOut = 259200000,
       totalPrice = Some (Finite 300), status = Some ''confirmed'' \<rparr>"

definition demo_booking2 :: booking where
  "demo_booking2 =
     \<lparr> booking_id = 2, RoomId = 2, UserId = Some 8, checkIn = 0, checkOut = 864000000,
       totalPrice = Some (Finite 375), status = Some ''canceled'' \<rparr>"

text \<open>
  One room with one confirmed booking for days 0 to 3. In both executions its owner
  cancels it before check-in and another guest books days 1 to 2 of the same room.
  Then either the new booking is confirmed and the old one completed, or the old one
  is set back to confirmed.
\<close>

definition turnover_store :: store where
  "turnover_store =
     \<lparr> rooms = [\<lparr> room_id = 1, price = 100 \<rparr>],
       bookings =
         [\<lparr> booking_id = 1, RoomId = 1, UserId = Some 7, checkIn = 0, checkOut = 259200000,
            totalPrice = Some (Finite 300), status = Some ''confirmed'' \<rparr>],
       nextId = 2 \<rparr>"

definition rebooking :: "operation list" where
  "rebooking =
     [CancelBooking 1 7 ''guest'' (- 1),
      CreateBooking \<lparr> bd_roomId = 1, bd_checkIn = 86400000, bd_checkOut = 172800000,
                      bd_UserId = None, bd_totalPrice = None, bd_status = None \<rparr> 9]"

definition turnover_run :: "operation list" where
  "turnover_run = rebooking @ [UpdateBookingStatus 2 ''confirmed'', UpdateBookingStatus 1 ''completed'']"

definition reactivation_run :: "operation list" where
  "reactivation_run = rebooking @ [UpdateBookingStatus 1 ''confirmed'']"

text \<open>
  One room whose nightly price is the number \<^verbatim>\<open>0.1\<close>, that is the double nearest to
  one tenth, and no booking.
\<close>

definition tenth :: rat where
  "tenth = 3602879701896397 / 36028797018963968"

definition tenth_store :: store where
  "tenth_store = \<lparr> rooms = [\<lparr> room_id = 1, price = tenth \<rparr>], bookings = [], nextId = 1 \<rparr>"

section \<open>Auxiliary facts\<close>

subsection \<open>Rounding\<close>

lemma powi_suc: "(2::rat) powi (e + 1) = 2 * 2 powi e"
  by (simp add: power_int_add)

lemma expo_bounds: "0 < x \<Longrightarrow> 2 powi (expo x) \<le> x \<and> x < 2 powi (expo x + 1)"
proof (induction x rule: expo.induct)
  case (1 x)
  show ?case
  proof (cases "2 \<le> x")
    case True
    with 1 have ih: "2 powi (expo (x / 2)) \<le> x / 2 \<and> x / 2 < 2 powi (expo (x / 2) + 1)"
      by simp
    from True 1(3) have e: "expo x = expo (x / 2) + 1"
      by (subst expo.simps) simp
    from ih powi_suc [of "expo (x / 2)"] powi_suc [of "expo (x / 2) + 1"] show ?thesis
      unfolding e by linarith
  next
    case False
    show ?thesis
    proof (cases "x < 1")
      case True
      with 1 False have ih: "2 powi (expo (2 * x)) \<le> 2 * x \<and> 2 * x < 2 powi (expo (2 * x) + 1)"
        by simp
      from True False 1(3) have e: "expo x = expo (2 * x) - 1"
        by (subst expo.simps) simp
      from ih powi_suc [of "expo (2 * x) - 1"] powi_suc [of "expo (2 * x)"] show ?thesis
        unfolding e by simp
    next
      case ge: False
      with False 1(3) have e: "expo x = 0"
        by (subst expo.simps) simp
      from ge False show ?thesis
        unfolding e by simp
    qed
  qed
qed

lemma rne_error: "\<bar>of_int (rne z) - z\<bar> \<le> 1 / 2"
proof -
  have "of_int \<lfloor>z\<rfloor> \<le> z" "z < of_int \<lfloor>z\<rfloor> + 1"
    by linarith+
  then show ?thesis
    by (auto simp: rne_def Let_def)
qed

lemma rne_of_int: "rne (of_int n) = n"
  by (simp add: rne_def)

lemma expo_less: "0 < x \<Longrightarrow> x < 2 powi k \<Longrightarrow> expo x < k"
proof (rule ccontr)
  assume a: "0 < x" "x < 2 powi k" and "\<not> expo x < k"
  then have "k \<le> expo x" by simp
  then have "(2::rat) powi k \<le> 2 powi expo x"
    by (rule power_int_increasing) simp
  with expo_bounds [OF a(1)] a(2) show False by linarith
qed

lemma expo_ge: "0 < x \<Longrightarrow> 2 powi k \<le> x \<Longrightarrow> k \<le> expo x"
proof (rule ccontr)
  assume a: "0 < x" "2 powi k \<le> x" and "\<not> k \<le> expo x"
  then have "expo x + 1 \<le> k" by simp
  then have "(2::rat) powi (expo x + 1) \<le> 2 powi k"
    by (rule power_int_increasing) simp
  with expo_bounds [OF a(1)] a(2) show False by linarith
qed

lemma quantum_pos: "0 < quantum x"
  by (simp add: quantum_def max_def)

lemma round_finite_error: "\<bar>round_finite x - x\<bar> \<le> quantum x / 2"
proof -
  let ?q = "quantum x"
  have q: "0 < ?q" by (rule quantum_pos)
  have "round_finite x - x = ?q * (of_int (rne (x / ?q)) - x / ?q)"
    using q by (simp add: round_finite_def field_simps)
  then have "\<bar>round_finite x - x\<bar> = ?q * \<bar>of_int (rne (x / ?q)) - x / ?q\<bar>"
    using q by (simp add: abs_mult)
  also have "\<dots> \<le> ?q * (1 / 2)"
    using q rne_error [of "x / ?q"] by (intro mult_left_mono) simp_all
  finally show ?thesis by simp
qed

lemma round_finite_exact: "x = quantum x * of_int n \<Longrightarrow> round_finite x = x"
proof -
  assume a: "x = quantum x * of_int n"
  have "x / quantum x = of_int n"
    using quantum_pos [of x] a by (metis less_irrefl nonzero_mult_div_cancel_left)
  then show ?thesis
    using a by (simp add: round_finite_def rne_of_int)
qed

lemma round_finite_0: "round_finite 0 = 0"
  by (simp add: round_finite_def rne_def)

lemma quantum_le:
  assumes "x \<noteq> 0" and "\<bar>x\<bar> < 2 powi k" and "- 1021 \<le> k"
  shows "quantum x \<le> 2 powi (k - 53)"
proof -
  from assms(1) have pos: "0 < \<bar>x\<bar>" by simp
  from expo_less [OF pos assms(2)] have "expo \<bar>x\<bar> - 52 \<le> k - 53" by simp
  then have "(2::rat) powi (expo \<bar>x\<bar> - 52) \<le> 2 powi (k - 53)"
    by (rule power_int_increasing) simp
  moreover from assms(3) have "- 1074 \<le> k - 53" by simp
  then have "(2::rat) powi (- 1074) \<le> 2 powi (k - 53)"
    by (rule power_int_increasing) simp
  ultimately show ?thesis
    unfolding quantum_def by (rule max.boundedI)
qed

lemma quantum_normal:
  assumes "0 < \<bar>x\<bar>" and "- 1022 \<le> expo \<bar>x\<bar>"
  shows "quantum x = 2 powi (expo \<bar>x\<bar> - 52)"
proof -
  from assms(2) have "- 1074 \<le> expo \<bar>x\<bar> - 52" by simp
  then have "(2::rat) powi (- 1074) \<le> 2 powi (expo \<bar>x\<bar> - 52)"
    by (rule power_int_increasing) simp
  then show ?thesis by (simp add: quantum_def max_def)
qed

lemma round_finite_of_int:
  assumes "\<bar>n\<bar> \<le> 2 ^ 53"
  shows "round_finite (of_int n) = of_int n"
proof (cases "n = 0")
  case True
  then show ?thesis by (simp add: round_finite_0)
next
  case False
  let ?x = "of_int n :: rat"
  let ?e = "expo \<bar>?x\<bar>"
  from False have pos: "0 < \<bar>?x\<bar>" by simp
  from False have "1 \<le> \<bar>n\<bar>" by simp
  then have "(1::rat) \<le> of_int \<bar>n\<bar>" by (simp only: of_int_1_le_iff)
  then have "(2::rat) powi 0 \<le> \<bar>?x\<bar>" by simp
  from expo_ge [OF pos this] have e0: "0 \<le> ?e" .
  from assms have "(of_int \<bar>n\<bar> :: rat) \<le> of_int (2 ^ 53)" by (simp only: of_int_le_iff)
  then have le: "\<bar>?x\<bar> \<le> 2 ^ 53" by simp
  then have "\<bar>?x\<bar> < 2 powi 54" by simp
  from expo_less [OF pos this] have e53: "?e \<le> 53" by simp
  from e0 have q: "quantum ?x = 2 powi (?e - 52)"
    by (intro quantum_normal pos) simp
  show ?thesis
  proof (cases "?e = 53")
    case True
    with expo_bounds [OF pos] have "2 ^ 53 \<le> \<bar>?x\<bar>" by simp
    with le have "\<bar>?x\<bar> = 2 ^ 53" by simp
    then have "?x = 2 ^ 53 \<or> ?x = - (2 ^ 53)" by linarith
    moreover from True q have "quantum ?x = 2" by simp
    ultimately have "?x = quantum ?x * of_int (2 ^ 52) \<or> ?x = quantum ?x * of_int (- (2 ^ 52))"
      by auto
    then show ?thesis by (metis round_finite_exact)
  next
    case False
    with e53 have "0 \<le> 52 - ?e" by simp
    then have "(2::rat) powi (52 - ?e) = 2 ^ nat (52 - ?e)"
      by (simp add: power_int_def)
    moreover have "(2::rat) powi (?e - 52) * 2 powi (52 - ?e) = 1"
      by (simp flip: power_int_add)
    ultimately have "?x = quantum ?x * of_int (n * 2 ^ nat (52 - ?e))"
      using q by (simp add: mult.assoc mult.left_commute)
    then show ?thesis by (rule round_finite_exact)
  qed
qed

lemma round_finite_close:
  assumes "\<bar>y\<bar> < 2 ^ 27"
  shows "\<bar>round_finite y - y\<bar> \<le> 1 / 2 ^ 27"
proof (cases "y = 0")
  case True
  then show ?thesis by (simp add: round_finite_0)
next
  case False
  from assms have "\<bar>y\<bar> < 2 powi 27" by simp
  from quantum_le [OF False this] have "quantum y \<le> 2 powi (- 26)" by simp
  then have "quantum y / 2 \<le> 1 / 2 ^ 27" by (simp add: power_int_minus field_simps)
  with round_finite_error [of y] show ?thesis by linarith
qed

lemma ceiling_round_quotient:
  assumes "\<bar>x\<bar> \<le> 2 ^ 53"
  shows "\<lceil>round_finite (round_finite (of_int x) / 86400000)\<rceil> = \<lceil>(of_int x :: rat) / 86400000\<rceil>"
proof -
  define y :: rat where "y = of_int x / 86400000"
  define k where "k = \<lceil>y\<rceil>"
  have inner: "round_finite (of_int x) = of_int x"
    using assms by (rule round_finite_of_int)
  from assms have "(of_int \<bar>x\<bar> :: rat) \<le> of_int (2 ^ 53)" by (simp only: of_int_le_iff)
  then have "\<bar>of_int x :: rat\<bar> \<le> 2 ^ 53" by simp
  then have small: "\<bar>y\<bar> < 2 ^ 27" by (simp add: y_def field_simps)
  from round_finite_close [OF small] have err: "\<bar>round_finite y - y\<bar> \<le> 1 / 2 ^ 27" .
  have up: "y \<le> of_int k" and low: "of_int k - 1 < y"
    unfolding k_def by linarith+
  have "\<lceil>round_finite y\<rceil> = k"
  proof (cases "y = of_int k")
    case True
    from small True have "(of_int \<bar>k\<bar> :: rat) < of_int (2 ^ 27)" by simp
    then have "\<bar>k\<bar> < 2 ^ 27" by (simp only: of_int_less_iff)
    then have "\<bar>k\<bar> \<le> 2 ^ 53" by simp
    then have "round_finite (of_int k) = of_int k" by (rule round_finite_of_int)
    with True have "round_finite y = of_int k" by simp
    then show ?thesis by simp
  next
    case False
    with up have "y < of_int k" by simp
    then have "of_int x < (of_int (k * 86400000) :: rat)" by (simp add: y_def field_simps)
    then have "x < k * 86400000" by (simp only: of_int_less_iff)
    then have "x + 1 \<le> k * 86400000" by simp
    then have "(of_int (x + 1) :: rat) \<le> of_int (k * 86400000)" by (simp only: of_int_le_iff)
    then have gap_up: "y + 1 / 86400000 \<le> of_int k" by (simp add: y_def field_simps)
    from low have "(of_int ((k - 1) * 86400000) :: rat) < of_int x" by (simp add: y_def field_simps)
    then have "(k - 1) * 86400000 < x" by (simp only: of_int_less_iff)
    then have "(k - 1) * 86400000 + 1 \<le> x" by simp
    then have "(of_int ((k - 1) * 86400000 + 1) :: rat) \<le> of_int x" by (simp only: of_int_le_iff)
    then have gap_low: "of_int k - 1 + 1 / 86400000 \<le> y" by (simp add: y_def field_simps)
    have "(1::rat) / 2 ^ 27 < 1 / 86400000" by simp
    with err gap_up gap_low have "of_int k - 1 < round_finite y" "round_finite y \<le> of_int k"
      by linarith+
    then show ?thesis by (intro ceiling_unique)
  qed
  with inner show ?thesis by (simp add: y_def k_def)
qed

lemma expo_unique: "2 powi e \<le> x \<Longrightarrow> x < 2 powi (e + 1) \<Longrightarrow> expo x = e"
proof -
  assume a: "2 powi e \<le> x" "x < 2 powi (e + 1)"
  have "(0::rat) < 2 powi e" by simp
  with a(1) have pos: "0 < x" by linarith
  from expo_ge [OF pos a(1)] expo_less [OF pos a(2)] show ?thesis by simp
qed

lemma round64_of_int:
  assumes "\<bar>n\<bar> \<le> 2 ^ 53"
  shows "round64 (of_int n) = Finite (of_int n)"
proof -
  have r: "round_finite (of_int n) = of_int n"
    using assms by (rule round_finite_of_int)
  from assms have "- (2 ^ 53) \<le> n" "n \<le> 2 ^ 53" by simp_all
  then have "(of_int (- (2 ^ 53)) :: rat) \<le> of_int n" "(of_int n :: rat) \<le> of_int (2 ^ 53)"
    by (simp_all only: of_int_le_iff)
  then have "- (2 ^ 53) \<le> (of_int n :: rat)" "(of_int n :: rat) \<le> 2 ^ 53" by simp_all
  moreover have "(2::rat) ^ 53 < 2 ^ 1024" by (rule power_strict_increasing) simp_all
  ultimately have "\<not> 2 ^ 1024 \<le> (of_int n :: rat)" "\<not> (of_int n :: rat) \<le> - (2 ^ 1024)"
    by linarith+
  with r show ?thesis by (simp only: round64_def Let_def if_False)
qed

lemma calculateTotalPrice_days:
  assumes "\<bar>co - ci\<bar> \<le> 2 ^ 53"
  shows "calculateTotalPrice p ci co
           = round64 (p * of_int \<lceil>(of_int (co - ci) :: rat) / 86400000\<rceil>)"
  using ceiling_round_quotient [OF assms]
  by (simp add: calculateTotalPrice_def)

lemma js_tenth: "round_finite (1 / 10) = 3602879701896397 / 36028797018963968"
proof -
  have e: "expo (1 / 10 :: rat) = - 4"
    by (rule expo_unique) (simp_all add: power_int_minus)
  have q: "quantum (1 / 10) = 2 powi (- 56)"
    by (subst quantum_normal) (simp_all add: e)
  have f: "\<lfloor>36028797018963968 / 5 :: rat\<rfloor> = 7205759403792793"
    by (rule floor_unique) simp_all
  show ?thesis
    by (simp add: round_finite_def q power_int_minus rne_def f Let_def)
qed

lemma tenth_times_3:
  "round64 (3602879701896397 / 36028797018963968 * 3) = Finite (1351079888211149 / 4503599627370496)"
proof -
  let ?x = "10808639105689191 / 36028797018963968 :: rat"
  have e: "expo ?x = - 2"
    by (rule expo_unique) (simp_all add: power_int_minus)
  have q: "quantum ?x = 2 powi (- 54)"
    by (subst quantum_normal) (simp_all add: e)
  have f: "\<lfloor>10808639105689191 / 2 :: rat\<rfloor> = 5404319552844595"
    by (rule floor_unique) simp_all
  have r: "round_finite ?x = 1351079888211149 / 4503599627370496"
    by (simp add: round_finite_def q power_int_minus rne_def f Let_def)
  have "(1351079888211149 / 4503599627370496 :: rat) < 2 ^ 1024"
    by (rule less_le_trans [of _ 1]) simp_all
  then show ?thesis
    using r by (simp add: round64_def Let_def del: power_numeral)
qed

lemma long_span:
  "round_finite (of_int (6048000000000001 - (- 6048000000000000))) = 12096000000000000"
proof -
  let ?x = "12096000000000001 :: rat"
  have e: "expo ?x = 53"
    by (rule expo_unique) simp_all
  have q: "quantum ?x = 2"
    by (subst quantum_normal) (simp_all add: e)
  have f: "\<lfloor>12096000000000001 / 2 :: rat\<rfloor> = 6048000000000000"
    by (rule floor_unique) simp_all
  show ?thesis
    by (simp add: round_finite_def q rne_def f Let_def)
qed

lemma round64_representable:
  assumes "x = of_int n" and "\<bar>n\<bar> \<le> 2 ^ 53"
  shows "round64 x = Finite x"
  using round64_of_int [OF assms(2)] assms(1) by simp

subsection \<open>Lookups and prices in the example stores\<close>

lemma find_None_conv: "(find P xs = None) = (\<not> (\<exists>x \<in> set xs. P x))"
  by (induction xs) auto

lemma find_split:
  "find (\<lambda>b. booking_id b = i) bs = Some b0 \<Longrightarrow>
     \<exists>pre post. bs = pre @ b0 # post \<and> (\<forall>x \<in> set pre. booking_id x \<noteq> i) \<and> booking_id b0 = i
        \<and> instance_update i f bs = pre @ f b0 # post"
proof (induction bs)
  case Nil
  then show ?case by simp
next
  case (Cons x xs)
  show ?case
  proof (cases "booking_id x = i")
    case True
    with Cons.prems have "x = b0" by simp
    with True have "x # xs = [] @ b0 # xs \<and> (\<forall>y \<in> set []. booking_id y \<noteq> i) \<and> booking_id b0 = i
        \<and> instance_update i f (x # xs) = [] @ f b0 # xs"
      by simp
    then show ?thesis by blast
  next
    case False
    with Cons.prems have "find (\<lambda>b. booking_id b = i) xs = Some b0" by simp
    from Cons.IH [OF this] obtain pre post where
      "xs = pre @ b0 # post" "\<forall>y \<in> set pre. booking_id y \<noteq> i" "booking_id b0 = i"
      "instance_update i f xs = pre @ f b0 # post"
      by blast
    with False have "x # xs = (x # pre) @ b0 # post \<and> (\<forall>y \<in> set (x # pre). booking_id y \<noteq> i)
        \<and> booking_id b0 = i \<and> instance_update i f (x # xs) = (x # pre) @ f b0 # post"
      by simp
    then show ?thesis by blast
  qed
qed

lemma instance_update_absent:
  "find (\<lambda>b. booking_id b = i) bs = None \<Longrightarrow> instance_update i f bs = bs"
  by (induction bs) (auto split: if_splits)

lemma demo_room2: "Room_findByPk 2 demo_store = Some \<lparr> room_id = 2, price = 75 / 2 \<rparr>"
  by (simp add: demo_store_def Room_findByPk_def)

lemma demo_room3: "Room_findByPk 3 demo_store = None"
  by (simp add: demo_store_def Room_findByPk_def)

lemma demo_avail2: "checkRoomAvailability 2 0 129600000 demo_store = Inr True"
  by (simp add: demo_store_def checkRoomAvailability_def Booking_findOne_def conflictWhere_def)

lemma demo_find1: "Booking_findByPk 1 demo_store = Some demo_booking1"
  by (simp add: demo_store_def demo_booking1_def Booking_findByPk_def)

lemma demo_find2: "Booking_findByPk 2 demo_store = Some demo_booking2"
  by (simp add: demo_store_def demo_booking2_def Booking_findByPk_def)

lemma demo_find5: "Booking_findByPk 5 demo_store = None"
  by (simp add: demo_store_def Booking_findByPk_def)

lemma ceil_3_2: "\<lceil>(3 :: rat) / 2\<rceil> = 2"
  by (rule ceiling_unique) simp_all

lemma demo_price2: "calculateTotalPrice (75 / 2) 0 129600000 = Finite 75"
proof -
  have "calculateTotalPrice (75 / 2) 0 129600000 = round64 (of_int 75)"
    by (subst calculateTotalPrice_days) (simp_all add: ceil_3_2)
  also have "\<dots> = Finite (of_int 75)"
    by (rule round64_of_int) simp
  finally show ?thesis by simp
qed

lemma one_night_100: "calculateTotalPrice 100 86400000 172800000 = Finite 100"
proof -
  have "calculateTotalPrice 100 86400000 172800000 = round64 (of_int 100)"
    by (subst calculateTotalPrice_days) simp_all
  also have "\<dots> = Finite (of_int 100)"
    by (rule round64_of_int) simp
  finally show ?thesis by simp
qed

lemma tenth_three_nights:
  "calculateTotalPrice tenth 0 259200000 = Finite (1351079888211149 / 4503599627370496)"
proof -
  have "calculateTotalPrice tenth 0 259200000 = round64 (tenth * 3)"
    by (subst calculateTotalPrice_days) simp_all
  then show ?thesis
    by (simp only: tenth_def tenth_times_3)
qed

subsection \<open>The invariant under each operation\<close>

text \<open>The definition of overlap says that the two stays share an instant.\<close>

lemma overlaps_common_instant:
  "overlaps a b \<longleftrightarrow>
     (\<exists>t. checkIn a \<le> t \<and> t < checkOut a \<and> checkIn b \<le> t \<and> t < checkOut b)"
proof
  assume "overlaps a b"
  then have "checkIn a \<le> max (checkIn a) (checkIn b) \<and> max (checkIn a) (checkIn b) < checkOut a
      \<and> checkIn b \<le> max (checkIn a) (checkIn b) \<and> max (checkIn a) (checkIn b) < checkOut b"
    by (simp add: overlaps_def)
  then show "\<exists>t. checkIn a \<le> t \<and> t < checkOut a \<and> checkIn b \<le> t \<and> t < checkOut b"
    by blast
next
  assume "\<exists>t. checkIn a \<le> t \<and> t < checkOut a \<and> checkIn b \<le> t \<and> t < checkOut b"
  then show "overlaps a b"
    by (auto simp: overlaps_def)
qed

lemma double_booked_sym: "double_booked a b \<longleftrightarrow> double_booked b a"
  by (auto simp: double_booked_def overlaps_def max.commute min.commute)

lemma no_double_booking_snoc:
  "no_double_booking (bs @ [b]) \<longleftrightarrow>
     no_double_booking bs \<and> (\<forall>x \<in> set bs. \<not> double_booked x b)"
  by (induction bs) auto

lemma no_double_booking_replace:
  assumes "no_double_booking (pre @ b0 # post)"
    and "\<And>y. double_booked b1 y \<Longrightarrow> double_booked b0 y"
  shows "no_double_booking (pre @ b1 # post)"
  using assms(1)
proof (induction pre)
  case Nil
  then show ?case using assms(2) by auto
next
  case (Cons x pre)
  have "\<not> double_booked x b1"
  proof
    assume "double_booked x b1"
    then have "double_booked b1 x" by (simp add: double_booked_sym)
    then have "double_booked b0 x" by (rule assms(2))
    then have "double_booked x b0" by (simp add: double_booked_sym)
    with Cons.prems show False by simp
  qed
  with Cons show ?case by auto
qed

lemma instance_update_preserves:
  assumes "no_double_booking bs"
    and "\<And>b y. find (\<lambda>b. booking_id b = i) bs = Some b \<Longrightarrow> double_booked (f b) y \<Longrightarrow> double_booked b y"
  shows "no_double_booking (instance_update i f bs)"
proof (cases "find (\<lambda>b. booking_id b = i) bs")
  case None
  then show ?thesis using assms(1) by (simp add: instance_update_absent)
next
  case (Some b0)
  from find_split [OF Some, of f] obtain pre post where
    sp: "bs = pre @ b0 # post" "instance_update i f bs = pre @ f b0 # post"
    by blast
  have "no_double_booking (pre @ f b0 # post)"
  proof (rule no_double_booking_replace)
    show "no_double_booking (pre @ b0 # post)" using assms(1) sp(1) by simp
    show "\<And>y. double_booked (f b0) y \<Longrightarrow> double_booked b0 y"
      using assms(2) [OF Some] .
  qed
  with sp(2) show ?thesis by simp
qed

lemma status_update_inert:
  "st \<noteq> ''pending'' \<Longrightarrow> st \<noteq> ''confirmed'' \<Longrightarrow> \<not> double_booked (b\<lparr> status := Some st \<rparr>) y"
  by (simp add: double_booked_def active_def)

lemma status_update_active:
  "active b \<Longrightarrow> double_booked (b\<lparr> status := Some st \<rparr>) y \<Longrightarrow> double_booked b y"
  by (simp add: double_booked_def overlaps_def)

lemma cancelBooking_preserves:
  assumes "no_double_booking (bookings s)"
  shows "no_double_booking (bookings (snd (cancelBooking i u r now s)))"
proof -
  have "no_double_booking (instance_update i (\<lambda>r. r\<lparr> status := Some ''canceled'' \<rparr>) (bookings s))"
    using assms by (rule instance_update_preserves) (simp add: status_update_inert)
  with assms show ?thesis
    by (simp add: cancelBooking_def split: option.splits)
qed

lemma updateBookingStatus_preserves:
  assumes "no_double_booking (bookings s)"
    and "\<not> reactivates (UpdateBookingStatus i st) s"
  shows "no_double_booking (bookings (snd (updateBookingStatus i st s)))"
proof -
  have "no_double_booking (instance_update i (\<lambda>r. r\<lparr> status := Some st \<rparr>) (bookings s))"
    using assms(1)
  proof (rule instance_update_preserves)
    fix b y
    assume found: "find (\<lambda>b. booking_id b = i) (bookings s) = Some b"
      and db: "double_booked (b\<lparr> status := Some st \<rparr>) y"
    from db have "st = ''pending'' \<or> st = ''confirmed''"
      using status_update_inert [of st b y] by blast
    with assms(2) found have "active b"
      by (simp add: Booking_findByPk_def)
    then show "double_booked b y"
      using db by (rule status_update_active)
  qed
  with assms(1) show ?thesis
    by (simp add: updateBookingStatus_def split: option.splits)
qed

lemma createBooking_preserves:
  assumes "no_double_booking (bookings s)"
  shows "no_double_booking (bookings (snd (createBooking bd u s)))"
proof (cases "createBooking bd u s")
  case (Pair res s')
  show ?thesis
  proof (cases res)
    case (Inl e)
    with Pair have "s' = s"
      by (auto simp: createBooking_def Booking_create_def Let_def
            split: option.splits sum.splits if_splits)
    with Pair assms show ?thesis by simp
  next
    case (Inr b)
    with Pair have ok: "bd_checkIn bd < bd_checkOut bd"
        "find (conflictWhere (bd_roomId bd) (bd_checkIn bd) (bd_checkOut bd)) (bookings s) = None"
        "bookings s' = bookings s @ [b]"
        "RoomId b = bd_roomId bd" "checkIn b = bd_checkIn bd" "checkOut b = bd_checkOut bd"
      by (auto simp: createBooking_def Booking_create_def Let_def checkRoomAvailability_def
            Booking_findOne_def split: option.splits sum.splits if_splits)
    have "\<not> double_booked x b" if "x \<in> set (bookings s)" for x
    proof
      assume db: "double_booked x b"
      from ok(2) that have "\<not> conflictWhere (bd_roomId bd) (bd_checkIn bd) (bd_checkOut bd) x"
        by (auto simp: find_None_conv)
      moreover from db ok(1,4,5,6) have "conflictWhere (bd_roomId bd) (bd_checkIn bd) (bd_checkOut bd) x"
        by (auto simp: double_booked_def active_def overlaps_def conflictWhere_def between_def)
      ultimately show False by simp
    qed
    with assms ok(3) Pair show ?thesis
      by (simp add: no_double_booking_snoc)
  qed
qed

text \<open>The two example executions, evaluated.\<close>

lemma rebooking_result:
  "run rebooking turnover_store =
     \<lparr> rooms = [\<lparr> room_id = 1, price = 100 \<rparr>],
       bookings =
         [\<lparr> booking_id = 1, RoomId = 1, UserId = Some 7, checkIn = 0, checkOut = 259200000,
            totalPrice = Some (Finite 300), status = Some ''canceled'' \<rparr>,
          \<lparr> booking_id = 2, RoomId = 1, UserId = Some 9, checkIn = 86400000,
            checkOut = 172800000, totalPrice = Some (Finite 100), status = Some ''pending'' \<rparr>],
       nextId = 3 \<rparr>"
  by (simp add: rebooking_def turnover_store_def cancelBooking_def createBooking_def
      Booking_findByPk_def Room_findByPk_def checkRoomAvailability_def
      Booking_findOne_def conflictWhere_def between_def Booking_create_def one_night_100
      Let_def)

lemma run_append: "run (xs @ ys) s = run ys (run xs s)"
  by (induction xs arbitrary: s) simp_all

lemma no_reactivation_append:
  "no_reactivation (xs @ ys) s \<longleftrightarrow> no_reactivation xs s \<and> no_reactivation ys (run xs s)"
  by (induction xs arbitrary: s) simp_all

lemma rebooking_safe: "no_reactivation rebooking turnover_store"
  by (simp add: rebooking_def)

section \<open>Pricing\<close>

text \<open>
  C6, as the code has it: \<open>calculateTotalPrice\<close> is a pure function that works in
  double precision. For dates at most \<open>2^53\<close> ms apart the number of days charged
  is the exact ceiling of \<open>(checkOut - checkIn)\<close> in days, and the result is the
  double nearest to the nightly price times that number of days; it is that product
  itself whenever the product is an integer of magnitude at most \<open>2^53\<close>. For a
  price of 100, a stay from day 0 to day 3 costs 300, and a stay from day 0 to day 0.5
  (half a day, 43200000 ms) costs 100.
\<close>

theorem calculateTotalPrice_double_precision:
  "(\<bar>co - ci\<bar> \<le> 2 ^ 53 \<longrightarrow>
      calculateTotalPrice p ci co
        = round64 (p * of_int \<lceil>(of_int (co - ci) :: rat) / 86400000\<rceil>))
   \<and> (\<bar>co - ci\<bar> \<le> 2 ^ 53
        \<and> p * of_int \<lceil>(of_int (co - ci) :: rat) / 86400000\<rceil> = of_int m \<and> \<bar>m\<bar> \<le> 2 ^ 53 \<longrightarrow>
      calculateTotalPrice p ci co
        = Finite (p * of_int \<lceil>(of_int (co - ci) :: rat) / 86400000\<rceil>))
   \<and> calculateTotalPrice 100 0 (3 * 86400000) = Finite 300
   \<and> calculateTotalPrice 100 0 43200000 = Finite 100"
proof (intro conjI impI)
  assume "\<bar>co - ci\<bar> \<le> 2 ^ 53"
  then show "calculateTotalPrice p ci co
      = round64 (p * of_int \<lceil>(of_int (co - ci) :: rat) / 86400000\<rceil>)"
    by (rule calculateTotalPrice_days)
next
  assume h: "\<bar>co - ci\<bar> \<le> 2 ^ 53
      \<and> p * of_int \<lceil>(of_int (co - ci) :: rat) / 86400000\<rceil> = of_int m \<and> \<bar>m\<bar> \<le> 2 ^ 53"
  then have "calculateTotalPrice p ci co
      = round64 (p * of_int \<lceil>(of_int (co - ci) :: rat) / 86400000\<rceil>)"
    by (simp add: calculateTotalPrice_days)
  also have "\<dots> = Finite (p * of_int \<lceil>(of_int (co - ci) :: rat) / 86400000\<rceil>)"
    using h by (intro round64_representable [of _ m]) simp_all
  finally show "calculateTotalPrice p ci co
      = Finite (p * of_int \<lceil>(of_int (co - ci) :: rat) / 86400000\<rceil>)" .
next
  have "calculateTotalPrice 100 0 (3 * 86400000) = round64 (of_int 300)"
    by (subst calculateTotalPrice_days) simp_all
  also have "\<dots> = Finite (of_int 300)"
    by (rule round64_of_int) simp
  finally show "calculateTotalPrice 100 0 (3 * 86400000) = Finite 300" by simp
next
  have half: "\<lceil>(1 :: rat) / 2\<rceil> = 1"
    by (rule ceiling_unique) simp_all
  have "calculateTotalPrice 100 0 43200000 = round64 (of_int 100)"
    by (subst calculateTotalPrice_days) (simp_all add: half)
  also have "\<dots> = Finite (of_int 100)"
    by (rule round64_of_int) simp
  finally show "calculateTotalPrice 100 0 43200000 = Finite 100" by simp
qed

theorem calculateTotalPrice_double_precision_witness:
  "calculateTotalPrice 80 (2 * 86400000) (3 * 86400000 + 1) = Finite 160"
proof -
  let ?ci = "2 * 86400000 :: int" and ?co = "3 * 86400000 + 1 :: int"
  have c: "\<lceil>(86400001 :: rat) / 86400000\<rceil> = 2"
    by (rule ceiling_unique) simp_all
  then have "\<bar>?co - ?ci\<bar> \<le> 2 ^ 53
      \<and> 80 * of_int \<lceil>(of_int (?co - ?ci) :: rat) / 86400000\<rceil> = (of_int 160 :: rat)
      \<and> \<bar>160 :: int\<bar> \<le> 2 ^ 53"
    by simp
  with calculateTotalPrice_double_precision [where p = 80 and ci = ?ci and co = ?co and m = 160]
  have "calculateTotalPrice 80 ?ci ?co
      = Finite (80 * of_int \<lceil>(of_int (?co - ?ci) :: rat) / 86400000\<rceil>)"
    by blast
  then show ?thesis
    by (simp add: c)
qed

text \<open>
  C6 as stated fails, since the arithmetic is not exact. The number \<^verbatim>\<open>0.1\<close> is
  the double \<open>3602879701896397 / 2^55\<close>; three nights at that price cost
  \<open>1351079888211149 / 2^52\<close>, which is not three times the price. And for two
  dates 12096000000000001 ms apart the difference is rounded to 12096000000000000 ms,
  so that 140000000 days are charged where the ceiling is 140000001.
\<close>

theorem calculateTotalPrice_not_exact:
  "round_finite (1 / 10) = tenth
   \<and> calculateTotalPrice tenth 0 (3 * 86400000) = Finite (1351079888211149 / 4503599627370496)
   \<and> calculateTotalPrice tenth 0 (3 * 86400000)
       \<noteq> Finite (tenth * of_int \<lceil>(of_int (3 * 86400000 - 0) :: rat) / 86400000\<rceil>)
   \<and> calculateTotalPrice 1 (- 6048000000000000) 6048000000000001 = Finite 140000000
   \<and> calculateTotalPrice 1 (- 6048000000000000) 6048000000000001
       \<noteq> Finite (1 * of_int \<lceil>(of_int (6048000000000001 - (- 6048000000000000)) :: rat) / 86400000\<rceil>)"
proof (intro conjI)
  show "round_finite (1 / 10) = tenth"
    by (simp only: js_tenth tenth_def)
  have three: "calculateTotalPrice tenth 0 (3 * 86400000)
      = Finite (1351079888211149 / 4503599627370496)"
    using tenth_three_nights by simp
  then show "calculateTotalPrice tenth 0 (3 * 86400000)
      = Finite (1351079888211149 / 4503599627370496)" .
  show "calculateTotalPrice tenth 0 (3 * 86400000)
      \<noteq> Finite (tenth * of_int \<lceil>(of_int (3 * 86400000 - 0) :: rat) / 86400000\<rceil>)"
    unfolding three by (simp add: tenth_def)
  have "round_finite (140000000 :: rat) = 140000000"
    using round_finite_of_int [of 140000000] by simp
  with long_span have far: "calculateTotalPrice 1 (- 6048000000000000) 6048000000000001
      = round64 (of_int 140000000)"
    by (simp add: calculateTotalPrice_def)
  also have "\<dots> = Finite (of_int 140000000)"
    by (rule round64_of_int) simp
  finally show far': "calculateTotalPrice 1 (- 6048000000000000) 6048000000000001
      = Finite 140000000"
    by simp
  have "\<lceil>(12096000000000001 :: rat) / 86400000\<rceil> = 140000001"
    by (rule ceiling_unique) simp_all
  then show "calculateTotalPrice 1 (- 6048000000000000) 6048000000000001
      \<noteq> Finite (1 * of_int \<lceil>(of_int (6048000000000001 - (- 6048000000000000)) :: rat) / 86400000\<rceil>)"
    unfolding far' by simp
qed

section \<open>Availability\<close>

text \<open>
  C5: \<open>checkRoomAvailability\<close> raises an error of kind Validation exactly when
  check-in is not before check-out; when check-in is before check-out it raises
  nothing and answers with a boolean. The test is the function's own, whatever its
  callers have checked.
\<close>

theorem checkRoomAvailability_validation:
  "((\<exists>e. checkRoomAvailability r ci co s = Inl e \<and> kind e = Validation) \<longleftrightarrow> ci \<ge> co)
   \<and> (ci < co \<longrightarrow> (\<exists>a. checkRoomAvailability r ci co s = Inr a))"
  by (auto simp: checkRoomAvailability_def Let_def)

theorem checkRoomAvailability_validation_witness:
  "(\<exists>e. checkRoomAvailability 1 86400000 86400000 demo_store = Inl e \<and> kind e = Validation)
   \<and> (\<exists>a. checkRoomAvailability 1 0 86400000 demo_store = Inr a)"
  using checkRoomAvailability_validation [of 1 86400000 86400000 demo_store]
    checkRoomAvailability_validation [of 1 0 86400000 demo_store]
  by simp

text \<open>
  C3: for a request with check-in before check-out, \<open>checkRoomAvailability\<close>
  answers true exactly when no booking of that room with status pending or confirmed
  has its check-in within the requested range (both ends included), or its check-out
  within the requested range (both ends included), or covers the requested range.
  Bookings with status canceled or completed do not count: the answer is the same on
  the store without them.
\<close>

theorem checkRoomAvailability_iff_no_conflict:
  assumes "ci < co"
  shows "checkRoomAvailability r ci co s =
           Inr (\<not> (\<exists>b \<in> set (bookings s). RoomId b = r
                     \<and> (status b = Some ''pending'' \<or> status b = Some ''confirmed'')
                     \<and> ((ci \<le> checkIn b \<and> checkIn b \<le> co)
                        \<or> (ci \<le> checkOut b \<and> checkOut b \<le> co)
                        \<or> (checkIn b \<le> ci \<and> co \<le> checkOut b))))
         \<and> checkRoomAvailability r ci co
             (s\<lparr> bookings := filter (\<lambda>b. status b \<noteq> Some ''canceled'' \<and> status b \<noteq> Some ''completed'')
                                 (bookings s) \<rparr>)
           = checkRoomAvailability r ci co s"
  using assms
  by (auto simp: checkRoomAvailability_def Let_def Booking_findOne_def find_None_conv
      conflictWhere_def between_def)

theorem checkRoomAvailability_iff_no_conflict_witness:
  "checkRoomAvailability 1 259200000 345600000 demo_store = Inr False
   \<and> checkRoomAvailability 2 86400000 172800000 demo_store = Inr True"
  using checkRoomAvailability_iff_no_conflict [of 259200000 345600000 1 demo_store]
    checkRoomAvailability_iff_no_conflict [of 86400000 172800000 2 demo_store]
  by (simp add: demo_store_def)

section \<open>Creating a booking\<close>

text \<open>
  C1: let the requested room exist and the request have check-in before check-out.
  If the store holds a booking of that room with status pending or confirmed whose
  check-in or check-out lies within the requested range, both ends included, or which
  covers the requested range, then \<open>createBooking\<close> fails with the error of kind
  Conflict and leaves the store as it was. A booking that ends at the very instant the
  request begins is such a booking (second case).
\<close>

theorem createBooking_overlap_conflict:
  assumes "Room_findByPk (bd_roomId bd) s = Some room"
    and "bd_checkIn bd < bd_checkOut bd"
    and "b \<in> set (bookings s)"
    and "RoomId b = bd_roomId bd"
    and "status b = Some ''pending'' \<or> status b = Some ''confirmed''"
    and "(bd_checkIn bd \<le> checkIn b \<and> checkIn b \<le> bd_checkOut bd)
         \<or> (bd_checkIn bd \<le> checkOut b \<and> checkOut b \<le> bd_checkOut bd)
         \<or> (checkIn b \<le> bd_checkIn bd \<and> bd_checkOut bd \<le> checkOut b)"
  shows "createBooking bd uid s = (Inl RoomUnavailable, s) \<and> kind RoomUnavailable = Conflict"
proof -
  have "conflictWhere (bd_roomId bd) (bd_checkIn bd) (bd_checkOut bd) b"
    using assms(4-6) by (auto simp: conflictWhere_def between_def)
  with assms(3) have "find (conflictWhere (bd_roomId bd) (bd_checkIn bd) (bd_checkOut bd)) (bookings s) \<noteq> None"
    by (auto simp: find_None_conv)
  with assms(2) have "checkRoomAvailability (bd_roomId bd) (bd_checkIn bd) (bd_checkOut bd) s = Inr False"
    by (simp add: checkRoomAvailability_def Booking_findOne_def)
  with assms(1) show ?thesis
    by (simp add: createBooking_def)
qed

text \<open>
  The witness is the edge case: room 1 is booked until day 3, and the request is
  for days 3 to 4.
\<close>

theorem createBooking_overlap_conflict_witness:
  "createBooking \<lparr> bd_roomId = 1, bd_checkIn = 259200000, bd_checkOut = 345600000,
                    bd_UserId = None, bd_totalPrice = None, bd_status = None \<rparr> 9 demo_store
     = (Inl RoomUnavailable, demo_store)"
  using createBooking_overlap_conflict
    [where bd = "\<lparr> bd_roomId = 1, bd_checkIn = 259200000, bd_checkOut = 345600000,
           bd_UserId = None, bd_totalPrice = None, bd_status = None \<rparr>"
       and s = demo_store and room = "\<lparr> room_id = 1, price = 100 \<rparr>"
       and b = "\<lparr> booking_id = 1, RoomId = 1, UserId = Some 7, checkIn = 0, checkOut = 259200000,
            totalPrice = Some (Finite 300), status = Some ''confirmed'' \<rparr>" and uid = 9]
  by (simp add: demo_store_def Room_findByPk_def)

text \<open>
  C4, as the code has it: \<open>createBooking\<close> takes its steps in order. If the room
  is not found it fails with the error of kind NotFound. Otherwise, if the
  availability check answers false, it fails with the error of kind Conflict.
  Otherwise, if the check answers true, it appends exactly one row to the bookings
  table and returns it: its status is pending, its owner the requesting user, its room
  and dates those of the request, and its price the value \<open>calculateTotalPrice\<close>
  computes in double precision, which for dates at most \<open>2^53\<close> ms apart is the
  double nearest to the room's nightly price times the days of the stay rounded up.
  An error of the availability check itself (malformed dates) is passed on. Every
  failure leaves the store as it was.
\<close>

theorem createBooking_steps:
  "(Room_findByPk (bd_roomId bd) s = None \<longrightarrow>
      createBooking bd uid s = (Inl RoomNotFound, s) \<and> kind RoomNotFound = NotFound)
   \<and> (\<forall>room. Room_findByPk (bd_roomId bd) s = Some room \<longrightarrow>
        (checkRoomAvailability (bd_roomId bd) (bd_checkIn bd) (bd_checkOut bd) s = Inr False \<longrightarrow>
           createBooking bd uid s = (Inl RoomUnavailable, s) \<and> kind RoomUnavailable = Conflict)
      \<and> (checkRoomAvailability (bd_roomId bd) (bd_checkIn bd) (bd_checkOut bd) s = Inr True \<longrightarrow>
           (\<exists>b. createBooking bd uid s
                   = (Inr b, s\<lparr> bookings := bookings s @ [b], nextId := Suc (nextId s) \<rparr>)
               \<and> status b = Some ''pending''
               \<and> UserId b = Some uid
               \<and> totalPrice b
                   = Some (calculateTotalPrice (price room) (bd_checkIn bd) (bd_checkOut bd))
               \<and> (\<bar>bd_checkOut bd - bd_checkIn bd\<bar> \<le> 2 ^ 53 \<longrightarrow>
                    totalPrice b
                      = Some (round64 (price room
                           * of_int \<lceil>(of_int (bd_checkOut bd - bd_checkIn bd) :: rat) / 86400000\<rceil>)))
               \<and> RoomId b = bd_roomId bd
               \<and> checkIn b = bd_checkIn bd
               \<and> checkOut b = bd_checkOut bd))
      \<and> (\<forall>e. checkRoomAvailability (bd_roomId bd) (bd_checkIn bd) (bd_checkOut bd) s = Inl e \<longrightarrow>
           createBooking bd uid s = (Inl e, s) \<and> kind e = Validation))"
  by (auto simp: createBooking_def Booking_create_def calculateTotalPrice_days Let_def
        checkRoomAvailability_def split: if_splits)

theorem createBooking_steps_witness:
  "createBooking \<lparr> bd_roomId = 3, bd_checkIn = 0, bd_checkOut = 129600000,
                    bd_UserId = None, bd_totalPrice = None, bd_status = None \<rparr> 9 demo_store
     = (Inl RoomNotFound, demo_store)
   \<and> (\<exists>b. createBooking \<lparr> bd_roomId = 2, bd_checkIn = 0, bd_checkOut = 129600000,
                    bd_UserId = None, bd_totalPrice = None, bd_status = None \<rparr> 9 demo_store
           = (Inr b, demo_store\<lparr> bookings := bookings demo_store @ [b],
                                  nextId := Suc (nextId demo_store) \<rparr>)
         \<and> status b = Some ''pending'' \<and> UserId b = Some 9 \<and> totalPrice b = Some (Finite 75))"
proof -
  let ?bd3 = "\<lparr> bd_roomId = 3, bd_checkIn = 0, bd_checkOut = 129600000,
                bd_UserId = None, bd_totalPrice = None, bd_status = None \<rparr>"
  let ?bd2 = "\<lparr> bd_roomId = 2, bd_checkIn = 0, bd_checkOut = 129600000,
                bd_UserId = None, bd_totalPrice = None, bd_status = None \<rparr>"
  have missing: "createBooking ?bd3 9 demo_store = (Inl RoomNotFound, demo_store)"
    using createBooking_steps [of ?bd3 demo_store 9] demo_room3 by simp
  have "\<exists>b. createBooking ?bd2 9 demo_store
              = (Inr b, demo_store\<lparr> bookings := bookings demo_store @ [b],
                                     nextId := Suc (nextId demo_store) \<rparr>)
            \<and> status b = Some ''pending'' \<and> UserId b = Some 9
            \<and> totalPrice b = Some (calculateTotalPrice (75 / 2) 0 129600000)"
    using createBooking_steps [of ?bd2 demo_store 9] demo_room2 demo_avail2 by auto
  then show ?thesis
    using missing by (simp add: demo_price2)
qed

text \<open>
  C4 as stated fails in the price: in a room whose nightly price is the number
  \<^verbatim>\<open>0.1\<close>, the booking persisted for three nights has the price
  \<open>1351079888211149 / 2^52\<close>, which is not three times the nightly price.
\<close>

theorem createBooking_price_not_exact:
  "createBooking \<lparr> bd_roomId = 1, bd_checkIn = 0, bd_checkOut = 259200000,
                    bd_UserId = None, bd_totalPrice = None, bd_status = None \<rparr> 9 tenth_store
     = (Inr \<lparr> booking_id = 1, RoomId = 1, UserId = Some 9, checkIn = 0, checkOut = 259200000,
              totalPrice = Some (Finite (1351079888211149 / 4503599627370496)),
              status = Some ''pending'' \<rparr>,
        tenth_store\<lparr> bookings :=
          [\<lparr> booking_id = 1, RoomId = 1, UserId = Some 9, checkIn = 0, checkOut = 259200000,
             totalPrice = Some (Finite (1351079888211149 / 4503599627370496)),
             status = Some ''pending'' \<rparr>], nextId := 2 \<rparr>)
   \<and> Finite (1351079888211149 / 4503599627370496)
       \<noteq> Finite (tenth * of_int \<lceil>(of_int (259200000 - 0) :: rat) / 86400000\<rceil>)"
proof
  show "createBooking \<lparr> bd_roomId = 1, bd_checkIn = 0, bd_checkOut = 259200000,
                    bd_UserId = None, bd_totalPrice = None, bd_status = None \<rparr> 9 tenth_store
     = (Inr \<lparr> booking_id = 1, RoomId = 1, UserId = Some 9, checkIn = 0, checkOut = 259200000,
              totalPrice = Some (Finite (1351079888211149 / 4503599627370496)),
              status = Some ''pending'' \<rparr>,
        tenth_store\<lparr> bookings :=
          [\<lparr> booking_id = 1, RoomId = 1, UserId = Some 9, checkIn = 0, checkOut = 259200000,
             totalPrice = Some (Finite (1351079888211149 / 4503599627370496)),
             status = Some ''pending'' \<rparr>], nextId := 2 \<rparr>)"
    by (simp add: createBooking_def tenth_store_def Room_findByPk_def checkRoomAvailability_def
        Booking_findOne_def Booking_create_def Let_def tenth_three_nights)
  show "Finite (1351079888211149 / 4503599627370496)
       \<noteq> Finite (tenth * of_int \<lceil>(of_int (259200000 - 0) :: rat) / 86400000\<rceil>)"
    by (simp add: tenth_def)
qed

text \<open>
  C10: whatever values \<open>bookingData\<close> carries under the keys \<open>UserId\<close>,
  \<open>totalPrice\<close> and \<open>status\<close>, \<open>createBooking\<close> gives the same result and the
  same store as for the object with other values, or none, under these keys; and the
  booking a successful call persists has the requesting user as owner, the status
  pending and the price computed from the nightly price of the room.
\<close>

theorem createBooking_ignores_supplied_fields:
  "createBooking (bd\<lparr> bd_UserId := u, bd_totalPrice := t, bd_status := st \<rparr>) uid s
     = createBooking bd uid s
   \<and> (\<forall>b s'. createBooking bd uid s = (Inr b, s') \<longrightarrow>
         UserId b = Some uid
       \<and> status b = Some ''pending''
       \<and> (\<exists>room. Room_findByPk (bd_roomId bd) s = Some room
             \<and> totalPrice b
                 = Some (calculateTotalPrice (price room) (bd_checkIn bd) (bd_checkOut bd)))
       \<and> bookings s' = bookings s @ [b])"
  by (auto simp: createBooking_def Booking_create_def Let_def
        split: option.splits sum.splits if_splits)

theorem createBooking_ignores_supplied_fields_witness:
  "createBooking \<lparr> bd_roomId = 2, bd_checkIn = 0, bd_checkOut = 129600000,
                    bd_UserId = Some 1, bd_totalPrice = Some (Finite 0), bd_status = Some ''confirmed'' \<rparr>
       9 demo_store
     = createBooking \<lparr> bd_roomId = 2, bd_checkIn = 0, bd_checkOut = 129600000,
                    bd_UserId = None, bd_totalPrice = None, bd_status = None \<rparr> 9 demo_store
   \<and> (\<exists>b s'. createBooking \<lparr> bd_roomId = 2, bd_checkIn = 0, bd_checkOut = 129600000,
                    bd_UserId = Some 1, bd_totalPrice = Some (Finite 0), bd_status = Some ''confirmed'' \<rparr>
                 9 demo_store = (Inr b, s')
          \<and> UserId b = Some 9 \<and> status b = Some ''pending'' \<and> totalPrice b = Some (Finite 75))"
proof -
  let ?bd = "\<lparr> bd_roomId = 2, bd_checkIn = 0, bd_checkOut = 129600000,
                bd_UserId = None, bd_totalPrice = None, bd_status = None \<rparr>"
  let ?bad = "\<lparr> bd_roomId = 2, bd_checkIn = 0, bd_checkOut = 129600000,
                bd_UserId = Some 1, bd_totalPrice = Some (Finite 0), bd_status = Some ''confirmed'' \<rparr>"
  have eq: "createBooking ?bad 9 demo_store = createBooking ?bd 9 demo_store"
    using createBooking_ignores_supplied_fields
      [where bd = ?bd and u = "Some 1" and t = "Some (Finite 0)" and st = "Some ''confirmed''"
         and uid = 9 and s = demo_store]
    by simp
  obtain b s' where ok: "createBooking ?bad 9 demo_store = (Inr b, s')"
    by (simp add: createBooking_def demo_room2 demo_avail2 Booking_create_def Let_def)
  from ok have "UserId b = Some 9" "status b = Some ''pending''"
      "\<exists>room. Room_findByPk 2 demo_store = Some room
         \<and> totalPrice b = Some (calculateTotalPrice (price room) 0 129600000)"
    using createBooking_ignores_supplied_fields
      [where bd = ?bad and uid = 9 and s = demo_store]
    by simp_all
  then have "totalPrice b = Some (Finite 75)"
    by (simp add: demo_room2 demo_price2)
  with eq ok \<open>UserId b = Some 9\<close> \<open>status b = Some ''pending''\<close> show ?thesis
    by simp
qed

section \<open>Access, cancellation and status updates\<close>

text \<open>
  C8: for an existing booking, \<open>getBookingById\<close> and \<open>cancelBooking\<close> both
  fail with the error of kind Forbidden when the requesting user is not the owner and
  the role is neither admin nor manager. In every other case \<open>getBookingById\<close>
  returns the booking and \<open>cancelBooking\<close> does not fail with an error of kind
  Forbidden.
\<close>

theorem access_check:
  assumes "Booking_findByPk i s = Some b"
  shows "(UserId b \<noteq> Some uid \<and> role \<notin> {''admin'', ''manager''} \<longrightarrow>
            getBookingById i uid role s = Inl AccessDenied
          \<and> cancelBooking i uid role now s = (Inl AccessDenied, s)
          \<and> kind AccessDenied = Forbidden)
       \<and> (UserId b = Some uid \<or> role \<in> {''admin'', ''manager''} \<longrightarrow>
            getBookingById i uid role s = Inr b
          \<and> (\<forall>e. fst (cancelBooking i uid role now s) = Inl e \<longrightarrow> kind e \<noteq> Forbidden))"
  using assms
  by (auto simp: getBookingById_def cancelBooking_def)

theorem access_check_witness:
  "getBookingById 1 8 ''guest'' demo_store = Inl AccessDenied
   \<and> cancelBooking 1 8 ''guest'' (- 1) demo_store = (Inl AccessDenied, demo_store)
   \<and> getBookingById 1 7 ''guest'' demo_store = Inr demo_booking1
   \<and> getBookingById 1 8 ''manager'' demo_store = Inr demo_booking1"
  using access_check [OF demo_find1, of 8 "''guest''" "- 1"]
    access_check [OF demo_find1, of 7 "''guest''" "- 1"]
    access_check [OF demo_find1, of 8 "''manager''" "- 1"]
  by (simp add: demo_booking1_def)

text \<open>
  C7: for an existing booking and a caller who is its owner, an admin or a manager,
  \<open>cancelBooking\<close> fails with the error of kind Conflict, leaving the store as it
  was, when the time of the call is past the booking's check-in. When the check-in is
  still in the future it succeeds: the row of the booking, and only that row, is
  replaced by the same row with status canceled, which is also the value returned.
\<close>

theorem cancelBooking_window:
  assumes "Booking_findByPk i s = Some b"
    and "UserId b = Some uid \<or> role = ''admin'' \<or> role = ''manager''"
  shows "(now > checkIn b \<longrightarrow>
            cancelBooking i uid role now s = (Inl CancelAfterCheckIn, s)
          \<and> kind CancelAfterCheckIn = Conflict)
       \<and> (now < checkIn b \<longrightarrow>
            (\<exists>pre post. bookings s = pre @ b # post
               \<and> cancelBooking i uid role now s
                   = (Inr (b\<lparr> status := Some ''canceled'' \<rparr>),
                      s\<lparr> bookings := pre @ b\<lparr> status := Some ''canceled'' \<rparr> # post \<rparr>)))"
proof (intro conjI impI)
  assume "now > checkIn b"
  with assms show "cancelBooking i uid role now s = (Inl CancelAfterCheckIn, s)"
    by (auto simp: cancelBooking_def)
next
  show "kind CancelAfterCheckIn = Conflict" by simp
next
  assume future: "now < checkIn b"
  from assms(1) have "find (\<lambda>b. booking_id b = i) (bookings s) = Some b"
    by (simp add: Booking_findByPk_def)
  from find_split [OF this, of "\<lambda>r. r\<lparr> status := Some ''canceled'' \<rparr>"]
  obtain pre post where sp: "bookings s = pre @ b # post"
      "instance_update i (\<lambda>r. r\<lparr> status := Some ''canceled'' \<rparr>) (bookings s)
         = pre @ b\<lparr> status := Some ''canceled'' \<rparr> # post"
    by blast
  from assms future sp(2) have "cancelBooking i uid role now s
      = (Inr (b\<lparr> status := Some ''canceled'' \<rparr>),
         s\<lparr> bookings := pre @ b\<lparr> status := Some ''canceled'' \<rparr> # post \<rparr>)"
    by (auto simp: cancelBooking_def)
  with sp(1) show "\<exists>pre post. bookings s = pre @ b # post
      \<and> cancelBooking i uid role now s
          = (Inr (b\<lparr> status := Some ''canceled'' \<rparr>),
             s\<lparr> bookings := pre @ b\<lparr> status := Some ''canceled'' \<rparr> # post \<rparr>)"
    by blast
qed

theorem cancelBooking_window_witness:
  "cancelBooking 1 7 ''guest'' 1 demo_store = (Inl CancelAfterCheckIn, demo_store)
   \<and> fst (cancelBooking 1 7 ''guest'' (- 1) demo_store)
       = Inr (demo_booking1\<lparr> status := Some ''canceled'' \<rparr>)"
proof -
  have owner: "UserId demo_booking1 = Some 7 \<or> ''guest'' = ''admin'' \<or> ''guest'' = ''manager''"
    by (simp add: demo_booking1_def)
  have chk: "checkIn demo_booking1 = 0"
    by (simp add: demo_booking1_def)
  show ?thesis
    using cancelBooking_window [OF demo_find1 owner, of 1]
      cancelBooking_window [OF demo_find1 owner, of "- 1"] chk
    by auto
qed

text \<open>
  C9: \<open>updateBookingStatus\<close> fails with the error of kind NotFound when no
  booking has the id. For a booking that is found, it fails with an error of kind
  Validation exactly when the new status is not one of pending, confirmed, canceled,
  completed, and then leaves the store as it was; otherwise, whatever the current
  status of the booking, the row of the booking, and only that row, is replaced by the
  same row with the new status, which is also the value returned.
\<close>

theorem updateBookingStatus_cases:
  "(Booking_findByPk i s = None \<longrightarrow>
      updateBookingStatus i st s = (Inl BookingNotFound, s) \<and> kind BookingNotFound = NotFound)
   \<and> (\<forall>b. Booking_findByPk i s = Some b \<longrightarrow>
        ((\<exists>e. fst (updateBookingStatus i st s) = Inl e \<and> kind e = Validation)
            \<longleftrightarrow> st \<notin> {''pending'', ''confirmed'', ''canceled'', ''completed''})
      \<and> (st \<notin> {''pending'', ''confirmed'', ''canceled'', ''completed''} \<longrightarrow>
            snd (updateBookingStatus i st s) = s)
      \<and> (st \<in> {''pending'', ''confirmed'', ''canceled'', ''completed''} \<longrightarrow>
            (\<exists>pre post. bookings s = pre @ b # post
               \<and> updateBookingStatus i st s
                   = (Inr (b\<lparr> status := Some st \<rparr>),
                      s\<lparr> bookings := pre @ b\<lparr> status := Some st \<rparr> # post \<rparr>))))"
proof (intro conjI impI allI)
  assume "Booking_findByPk i s = None"
  then show "updateBookingStatus i st s = (Inl BookingNotFound, s)"
    by (simp add: updateBookingStatus_def)
next
  show "kind BookingNotFound = NotFound" by simp
next
  fix b assume "Booking_findByPk i s = Some b"
  then show "(\<exists>e. fst (updateBookingStatus i st s) = Inl e \<and> kind e = Validation)
      \<longleftrightarrow> st \<notin> {''pending'', ''confirmed'', ''canceled'', ''completed''}"
    by (simp add: updateBookingStatus_def allowedStatuses_def)
next
  fix b assume "Booking_findByPk i s = Some b"
    and "st \<notin> {''pending'', ''confirmed'', ''canceled'', ''completed''}"
  then show "snd (updateBookingStatus i st s) = s"
    by (simp add: updateBookingStatus_def allowedStatuses_def)
next
  fix b assume found: "Booking_findByPk i s = Some b"
    and ok: "st \<in> {''pending'', ''confirmed'', ''canceled'', ''completed''}"
  from found have "find (\<lambda>b. booking_id b = i) (bookings s) = Some b"
    by (simp add: Booking_findByPk_def)
  from find_split [OF this, of "\<lambda>r. r\<lparr> status := Some st \<rparr>"]
  obtain pre post where sp: "bookings s = pre @ b # post"
      "instance_update i (\<lambda>r. r\<lparr> status := Some st \<rparr>) (bookings s)
         = pre @ b\<lparr> status := Some st \<rparr> # post"
    by blast
  from ok have "st \<in> set allowedStatuses"
    by (simp add: allowedStatuses_def)
  with found sp(2) have "updateBookingStatus i st s
      = (Inr (b\<lparr> status := Some st \<rparr>), s\<lparr> bookings := pre @ b\<lparr> status := Some st \<rparr> # post \<rparr>)"
    by (simp add: updateBookingStatus_def)
  with sp(1) show "\<exists>pre post. bookings s = pre @ b # post
      \<and> updateBookingStatus i st s
          = (Inr (b\<lparr> status := Some st \<rparr>), s\<lparr> bookings := pre @ b\<lparr> status := Some st \<rparr> # post \<rparr>)"
    by blast
qed

theorem updateBookingStatus_cases_witness:
  "updateBookingStatus 5 ''confirmed'' demo_store = (Inl BookingNotFound, demo_store)
   \<and> snd (updateBookingStatus 2 ''paid'' demo_store) = demo_store
   \<and> fst (updateBookingStatus 2 ''confirmed'' demo_store)
       = Inr (demo_booking2\<lparr> status := Some ''confirmed'' \<rparr>)"
  using updateBookingStatus_cases [of 5 demo_store "''confirmed''"]
    updateBookingStatus_cases [of 2 demo_store "''paid''"]
    updateBookingStatus_cases [of 2 demo_store "''confirmed''"]
    demo_find5 demo_find2
  by auto

section \<open>The invariant along executions\<close>

text \<open>
  C2, as the code has it: start from a store in which no two active bookings of a room
  overlap, and run any sequence of \<open>createBooking\<close>, \<open>cancelBooking\<close> and
  \<open>updateBookingStatus\<close> calls in which no status update sets a booking that is
  not active at that moment to pending or confirmed. Then no two active bookings of a
  room overlap in the store reached. \<open>createBooking\<close> and \<open>cancelBooking\<close>
  preserve the invariant without any condition.
\<close>

theorem no_double_booking_preserved:
  "no_double_booking (bookings s) \<Longrightarrow> no_reactivation ops s \<Longrightarrow>
     no_double_booking (bookings (run ops s))"
proof (induction ops arbitrary: s)
  case Nil
  then show ?case by simp
next
  case (Cons opn ops)
  have "no_double_booking (bookings (exec opn s))"
  proof (cases opn)
    case (CreateBooking bd u)
    with Cons.prems(1) show ?thesis by (simp add: createBooking_preserves)
  next
    case (CancelBooking i u r now)
    with Cons.prems(1) show ?thesis by (simp add: cancelBooking_preserves)
  next
    case (UpdateBookingStatus i st)
    with Cons.prems show ?thesis by (simp add: updateBookingStatus_preserves)
  qed
  with Cons show ?case by simp
qed

theorem no_double_booking_preserved_witness:
  "no_double_booking (bookings (run turnover_run turnover_store))"
proof -
  have inv: "no_double_booking (bookings turnover_store)"
    by (simp add: turnover_store_def)
  have safe: "no_reactivation turnover_run turnover_store"
    by (simp add: turnover_run_def no_reactivation_append rebooking_safe rebooking_result
        updateBookingStatus_def Booking_findByPk_def allowedStatuses_def active_def)
  show ?thesis
    using no_double_booking_preserved [OF inv safe] .
qed

text \<open>
  C2 as stated fails: after the owner has canceled the booking of days 0 to 3 and
  another guest has booked days 1 to 2 of the same room, a status update that sets
  the canceled booking back to confirmed is applied without any check, and the store
  holds two active overlapping bookings of room 1.
\<close>

theorem invariant_broken_by_status_update:
  "no_double_booking (bookings turnover_store)
   \<and> \<not> no_double_booking (bookings (run reactivation_run turnover_store))"
proof
  show "no_double_booking (bookings turnover_store)"
    by (simp add: turnover_store_def)
  show "\<not> no_double_booking (bookings (run reactivation_run turnover_store))"
    by (simp add: reactivation_run_def run_append rebooking_result updateBookingStatus_def
        Booking_findByPk_def allowedStatuses_def double_booked_def active_def overlaps_def)
qed

end
